theory Spec2Isabelle
  imports Main "HOL-Library.Sublist"
begin

section \<open>Python strings\<close>

text \<open>
  A Python \<open>str\<close> is a sequence of code points. It is modelled as a \<^typ>\<open>string\<close> whose
  characters are the code points below 256 (Latin-1), which covers every literal of the
  scripts (\<open>CHR 0xE9\<close> is e-acute, \<open>CHR 0xE8\<close> e-grave, \<open>CHR 0xC3\<close> A-tilde). Lengths
  and slices therefore count what Python counts.
\<close>

definition is_space :: "char \<Rightarrow> bool" where
  \<comment> \<open>\<open>str.isspace\<close> and the class \<open>\s\<close> of \<open>re\<close> on the code points below 256\<close>
  "is_space c = (c \<in> set [CHR 0x09, CHR 0x0A, CHR 0x0B, CHR 0x0C, CHR 0x0D,
      CHR 0x1C, CHR 0x1D, CHR 0x1E, CHR 0x1F, CHR 0x20, CHR 0x85, CHR 0xA0])"

definition upper_chars :: string where
  "upper_chars = ''ABCDEFGHIJKLMNOPQRSTUVWXYZ'' @
     [CHR 0xC0, CHR 0xC1, CHR 0xC2, CHR 0xC3, CHR 0xC4, CHR 0xC5, CHR 0xC6, CHR 0xC7,
      CHR 0xC8, CHR 0xC9, CHR 0xCA, CHR 0xCB, CHR 0xCC, CHR 0xCD, CHR 0xCE, CHR 0xCF,
      CHR 0xD0, CHR 0xD1, CHR 0xD2, CHR 0xD3, CHR 0xD4, CHR 0xD5, CHR 0xD6, CHR 0xD8,
      CHR 0xD9, CHR 0xDA, CHR 0xDB, CHR 0xDC, CHR 0xDD, CHR 0xDE]"

definition lower_chars :: string where
  "lower_chars = ''abcdefghijklmnopqrstuvwxyz'' @
     [CHR 0xE0, CHR 0xE1, CHR 0xE2, CHR 0xE3, CHR 0xE4, CHR 0xE5, CHR 0xE6, CHR 0xE7,
      CHR 0xE8, CHR 0xE9, CHR 0xEA, CHR 0xEB, CHR 0xEC, CHR 0xED, CHR 0xEE, CHR 0xEF,
      CHR 0xF0, CHR 0xF1, CHR 0xF2, CHR 0xF3, CHR 0xF4, CHR 0xF5, CHR 0xF6, CHR 0xF8,
      CHR 0xF9, CHR 0xFA, CHR 0xFB, CHR 0xFC, CHR 0xFD, CHR 0xFE]"

definition lower_char :: "char \<Rightarrow> char" where
  "lower_char c = (case map_of (zip upper_chars lower_chars) c of Some l \<Rightarrow> l | None \<Rightarrow> c)"

definition is_digit :: "char \<Rightarrow> bool" where
  \<comment> \<open>the class \<open>[0-9]\<close>\<close>
  "is_digit c = (c \<in> set ''0123456789'')"

definition is_lower_az :: "char \<Rightarrow> bool" where
  \<comment> \<open>the class \<open>[a-z]\<close>\<close>
  "is_lower_az c = (c \<in> set ''abcdefghijklmnopqrstuvwxyz'')"

definition lower :: "string \<Rightarrow> string" where
  \<comment> \<open>\<open>s.lower()\<close>\<close>
  "lower s = map lower_char s"

definition strip :: "string \<Rightarrow> string" where
  \<comment> \<open>\<open>s.strip()\<close>\<close>
  "strip s = rev (dropWhile is_space (rev (dropWhile is_space s)))"

fun split_on :: "char \<Rightarrow> string \<Rightarrow> string list" where
  \<comment> \<open>\<open>s.split(sep)\<close> for a one-character separator: never an empty list\<close>
  "split_on sep [] = [[]]"
| "split_on sep (c # cs) =
     (if c = sep then [] # split_on sep cs
      else (case split_on sep cs of [] \<Rightarrow> [[c]] | r # rs \<Rightarrow> (c # r) # rs))"

fun join :: "string \<Rightarrow> string list \<Rightarrow> string" where
  \<comment> \<open>\<open>sep.join(xs)\<close>\<close>
  "join sep [] = []"
| "join sep [x] = x"
| "join sep (x # y # ys) = x @ sep @ join sep (y # ys)"

definition slice :: "nat \<Rightarrow> nat \<Rightarrow> string \<Rightarrow> string" where
  \<comment> \<open>\<open>s[i:j]\<close> for non-negative \<open>i\<close>, \<open>j\<close>\<close>
  "slice i j s = take (j - i) (drop i s)"

function replace :: "string \<Rightarrow> string \<Rightarrow> string \<Rightarrow> string" where
  \<comment> \<open>\<open>s.replace(old, new)\<close>; every call of the scripts has a non-empty \<open>old\<close>\<close>
  "replace old new [] = []"
| "replace old new (c # cs) =
     (if old \<noteq> [] \<and> prefix old (c # cs)
      then new @ replace old new (drop (length old) (c # cs))
      else c # replace old new cs)"
  by pat_completeness auto
termination
  by (relation "measure (\<lambda>(old, new, s). length s)") (auto simp: neq_Nil_conv)

function collapse_ws :: "string \<Rightarrow> string" where
  \<comment> \<open>\<open>re.sub(r'\s+', ' ', s)\<close>: every maximal run of whitespace becomes one space\<close>
  "collapse_ws [] = []"
| "collapse_ws (c # cs) =
     (if is_space c then CHR '' '' # collapse_ws (dropWhile is_space cs)
      else c # collapse_ws cs)"
  by pat_completeness auto
termination
  by (relation "measure length") (auto simp: length_dropWhile_le less_Suc_eq_le)

section \<open>Regular expressions of the scripts\<close>

text \<open>
  Every pattern of the scripts is a sequence of one-character classes, each taken once,
  optionally (\<open>?\<close>) or greedily repeated (\<open>*\<close>; \<open>x+\<close> is \<open>x\<close> followed by \<open>x*\<close>).
  \<open>match_here\<close> is the backtracking matcher of \<open>re\<close> at a fixed start: it returns the
  length of the first match in the matcher's priority order (a greedy item first tries to
  take one more character). The flag is \<open>re.IGNORECASE\<close>.
\<close>

datatype cclass = Lit char | Space | NotComma | NotSpaceComma | Digit | LowerAZ

datatype quant = One | Opt | Star

type_synonym regex = "(quant \<times> cclass) list"

fun cmatch :: "bool \<Rightarrow> cclass \<Rightarrow> char \<Rightarrow> bool" where
  "cmatch ic (Lit a) c = (if ic then lower_char a = lower_char c else a = c)"
| "cmatch ic Space c = is_space c"
| "cmatch ic NotComma c = (c \<noteq> CHR '','')"
| "cmatch ic NotSpaceComma c = (\<not> is_space c \<and> c \<noteq> CHR '','')"
| "cmatch ic Digit c = is_digit c"
| "cmatch ic LowerAZ c = is_lower_az (if ic then lower_char c else c)"

fun match_here :: "bool \<Rightarrow> regex \<Rightarrow> string \<Rightarrow> nat option" where
  "match_here ic [] s = Some 0"
| "match_here ic ((One, k) # r) [] = None"
| "match_here ic ((One, k) # r) (c # cs) =
     (if cmatch ic k c then map_option Suc (match_here ic r cs) else None)"
| "match_here ic ((Opt, k) # r) [] = match_here ic r []"
| "match_here ic ((Opt, k) # r) (c # cs) =
     (if cmatch ic k c
      then (case match_here ic r cs of
              Some n \<Rightarrow> Some (Suc n)
            | None \<Rightarrow> match_here ic r (c # cs))
      else match_here ic r (c # cs))"
| "match_here ic ((Star, k) # r) [] = match_here ic r []"
| "match_here ic ((Star, k) # r) (c # cs) =
     (if cmatch ic k c
      then (case match_here ic ((Star, k) # r) cs of
              Some n \<Rightarrow> Some (Suc n)
            | None \<Rightarrow> match_here ic r (c # cs))
      else match_here ic r (c # cs))"

definition lits :: "string \<Rightarrow> regex" where
  \<comment> \<open>a literal string, as \<open>re.escape\<close> makes one\<close>
  "lits s = map (\<lambda>c. (One, Lit c)) s"

fun re_search_from :: "bool \<Rightarrow> regex \<Rightarrow> nat \<Rightarrow> string \<Rightarrow> (nat \<times> nat) option" where
  "re_search_from ic r pos [] =
     (case match_here ic r [] of Some n \<Rightarrow> Some (pos, pos + n) | None \<Rightarrow> None)"
| "re_search_from ic r pos (c # cs) =
     (case match_here ic r (c # cs) of
        Some n \<Rightarrow> Some (pos, pos + n)
      | None \<Rightarrow> re_search_from ic r (Suc pos) cs)"

definition re_search :: "bool \<Rightarrow> regex \<Rightarrow> string \<Rightarrow> (nat \<times> nat) option" where
  \<comment> \<open>\<open>re.search\<close>: the span \<open>(start, end)\<close> of the leftmost match\<close>
  "re_search ic r s = re_search_from ic r 0 s"

function finditer_from :: "bool \<Rightarrow> regex \<Rightarrow> nat \<Rightarrow> string \<Rightarrow> (nat \<times> nat) list" where
  "finditer_from ic r pos [] =
     (case match_here ic r [] of Some n \<Rightarrow> [(pos, pos + n)] | None \<Rightarrow> [])"
| "finditer_from ic r pos (c # cs) =
     (case match_here ic r (c # cs) of
        None \<Rightarrow> finditer_from ic r (Suc pos) cs
      | Some n \<Rightarrow>
          (pos, pos + n) #
            (if n = 0 then finditer_from ic r (Suc pos) cs
             else finditer_from ic r (pos + n) (drop n (c # cs))))"
  by pat_completeness auto
termination
  by (relation "measure (\<lambda>(ic, r, pos, s). length s)") auto

definition finditer :: "bool \<Rightarrow> regex \<Rightarrow> string \<Rightarrow> (nat \<times> nat) list" where
  \<comment> \<open>\<open>re.finditer\<close>: the spans of the non-overlapping matches, left to right; the
      patterns it is called with all contain a literal parenthesis, so no match is empty\<close>
  "finditer ic r s = finditer_from ic r 0 s"

section \<open>Entry parser (analyze\_references.py)\<close>

record parsed_ref =
  authors :: string
  year :: string
  title :: string
  doi :: string
  full_ref :: string
  display :: string

definition year_re :: regex where
  \<comment> \<open>\<open>\(([0-9]{4}[a-z]?)\)\<close>\<close>
  "year_re = [(One, Lit (CHR ''('')), (One, Digit), (One, Digit), (One, Digit), (One, Digit),
              (Opt, LowerAZ), (One, Lit (CHR '')''))]"

definition doi_re :: regex where
  \<comment> \<open>\<open>https?://doi\.org/([^\s,]+)\<close>\<close>
  "doi_re = lits ''http'' @ [(Opt, Lit (CHR ''s''))] @ lits ''://doi.org/'' @
            [(One, NotSpaceComma), (Star, NotSpaceComma)]"

definition title_re :: regex where
  \<comment> \<open>\<open>^[^,]+\<close>, used with \<open>re.match\<close>\<close>
  "title_re = [(One, NotComma), (Star, NotComma)]"

definition parse_reference :: "string \<Rightarrow> parsed_ref" where
  "parse_reference ref_text =
    (let year_match = re_search False year_re ref_text;
         yr = (case year_match of Some (s, e) \<Rightarrow> slice (s + 1) (e - 1) ref_text | None \<Rightarrow> []);
         doi_match = re_search False doi_re ref_text;
         doi_url = (case doi_match of Some (s, e) \<Rightarrow> slice s e ref_text | None \<Rightarrow> []);
         auth =
           (case year_match of
              Some (s, e) \<Rightarrow>
                (let authors_part = collapse_ws (strip (take s ref_text)) in
                 if sublist '', '' authors_part then
                   (let first_author = strip (hd (split_on (CHR '','') authors_part)) in
                    if sublist ''et al'' (lower authors_part) then first_author @ '' et al.''
                    else
                      (let authors_list = map strip (take 3 (split_on (CHR '','') authors_part));
                           joined = join '', '' authors_list
                       in if length (split_on (CHR '','') authors_part) > 3
                          then joined @ '' et al.'' else joined))
                 else authors_part)
            | None \<Rightarrow>
                (if CHR '','' \<in> set ref_text then hd (split_on (CHR '','') ref_text)
                 else take 50 ref_text));
         ttl =
           (case year_match of
              Some (s, e) \<Rightarrow>
                (let after_year = strip (drop e ref_text) in
                 case match_here False title_re after_year of
                   Some n \<Rightarrow>
                     (let t = collapse_ws (strip (take n after_year)) in
                      if length t > 100 then take 100 t @ ''...'' else t)
                 | None \<Rightarrow> [])
            | None \<Rightarrow> []);
         ref_display = auth @ '' ('' @ yr @ '')'' @ (if ttl \<noteq> [] then '' - '' @ ttl else [])
     in \<lparr>authors = auth, year = yr, title = ttl, doi = doi_url,
         full_ref = ref_text, display = ref_display\<rparr>)"

section \<open>Entry parser: the notions of the specification\<close>

text \<open>
  A year as section 4.2 of the specification words it: four digits, optionally followed
  by one lowercase letter. \<open>year_occurs_at text k y\<close> says that the parenthesized year
  \<open>(y)\<close> stands in \<open>text\<close> at offset \<open>k\<close>.
\<close>

definition is_year :: "string \<Rightarrow> bool" where
  "is_year y = ((length y = 4 \<or> (length y = 5 \<and> is_lower_az (y ! 4)))
                \<and> list_all is_digit (take 4 y))"

definition year_occurs_at :: "string \<Rightarrow> nat \<Rightarrow> string \<Rightarrow> bool" where
  "year_occurs_at text k y = (is_year y \<and> prefix (''('' @ y @ '')'') (drop k text))"

text \<open>
  The authors field in the words of the specification (section 4.2), for comparison with
  what \<open>parse_reference\<close> computes: \<open>p\<close> is the whitespace-normalized text before the
  year.
\<close>

definition spec_authors :: "string \<Rightarrow> string" where
  "spec_authors p =
     (let toks = split_on (CHR '','') p in
      if sublist ''et al.'' p then hd toks @ '' et al.''
      else join '','' (take 3 toks) @ (if length toks > 3 then '' et al.'' else []))"

section \<open>Citation locator (analyze\_references.py)\<close>

record citation =
  position :: nat
  context_window :: string

text \<open>
  The two patterns of \<open>find_reference_citations\<close>; both are matched with
  \<open>re.IGNORECASE\<close>. \<open>pattern1\<close> is
  \<open>{first_author}\s+et\s+al\.?\s*\({year}\)\<close> when the authors carry an \<open>et al\<close>, and
  \<open>{first_author}[^,]*\({year}\)\<close> otherwise; \<open>pattern2\<close> is \<open>\({year}\)\<close>.
\<close>

definition pattern1 :: "string \<Rightarrow> string \<Rightarrow> regex" where
  "pattern1 auth yr =
     (let first_author = strip (hd (split_on (CHR '','') auth)) in
      if sublist '' et al'' (lower auth)
      then lits first_author @ [(One, Space), (Star, Space)] @ lits ''et'' @
           [(One, Space), (Star, Space)] @ lits ''al'' @ [(Opt, Lit (CHR ''.'')), (Star, Space)] @
           lits (''('' @ yr @ '')'')
      else lits first_author @ [(Star, NotComma)] @ lits (''('' @ yr @ '')''))"

definition pattern2 :: "string \<Rightarrow> regex" where
  "pattern2 yr = lits (''('' @ yr @ '')'')"

text \<open>
  The context of a match is \<open>text[max(0, start - 200) : min(len(text), end + 200)]\<close>;
  subtraction on \<^typ>\<open>nat\<close> stops at 0, which is the \<open>max\<close>.
\<close>

definition mk_citation :: "string \<Rightarrow> nat \<times> nat \<Rightarrow> citation" where
  "mk_citation text m =
     (let start = fst m - 200; end = min (length text) (snd m + 200)
      in \<lparr>position = fst m, context_window = slice start end text\<rparr>)"

definition find_reference_citations :: "string \<Rightarrow> parsed_ref \<Rightarrow> citation list" where
  "find_reference_citations text ref_parsed =
     (if year ref_parsed = [] then []
      else concat (map (\<lambda>pattern. map (mk_citation text) (finditer True pattern text))
             [pattern1 (authors ref_parsed) (year ref_parsed), pattern2 (year ref_parsed)]))"








section \<open>Usage classifier (analyze\_references.py)\<close>

text \<open>The category labels and the default description, as the script spells them.\<close>

definition label_method :: string where
  "label_method = ''justification de m'' @ [CHR 0xE9] @ ''thode''"

definition label_theory :: string where
  "label_theory = ''cadre th'' @ [CHR 0xE9] @ ''orique''"

definition label_results :: string where
  "label_results = ''comparaison de r'' @ [CHR 0xE9] @ ''sultats''"

definition label_hypothesis :: string where
  "label_hypothesis = ''appui d'' @ [CHR 0x27] @ ''hypoth'' @ [CHR 0xE8] @ ''se''"

definition label_example :: string where
  "label_example = ''exemple ou application''"

definition label_general :: string where
  "label_general = ''r'' @ [CHR 0xE9] @ ''f'' @ [CHR 0xE9] @ ''rence g'' @ [CHR 0xE9] @ ''n'' @ [CHR 0xE9] @ ''rale''"

definition default_usage :: string where
  "default_usage = ''R'' @ [CHR 0xE9] @ ''f'' @ [CHR 0xE9] @ ''rence cit'' @ [CHR 0xE9] @
     ''e dans la bibliographie mais usage non d'' @ [CHR 0xE9] @ ''tect'' @ [CHR 0xE9] @
     '' dans le texte''"

definition any_in :: "string list \<Rightarrow> string \<Rightarrow> bool" where
  \<comment> \<open>\<open>any(word in s for word in words)\<close>\<close>
  "any_in ws s = list_ex (\<lambda>w. sublist w s) ws"

text \<open>
  The body of the loop over the citations: the first keyword list with a word in the
  lowercased context decides the label.
\<close>

definition classify_context :: "string \<Rightarrow> string" where
  "classify_context ctx =
     (if any_in [''m'' @ [CHR 0xE9] @ ''thode'', ''method'', ''technique'', ''approche'',
                 ''algorithme''] ctx then label_method
      else if any_in [''cadre'', ''framework'', ''th'' @ [CHR 0xE9] @ ''orie'', ''theory'',
                      ''mod'' @ [CHR 0xE8] @ ''le'', ''model''] ctx then label_theory
      else if any_in [''r'' @ [CHR 0xE9] @ ''sultat'', ''result'', ''comparaison'',
                      ''comparison'', ''donn'' @ [CHR 0xE9] @ ''e'', ''data''] ctx then label_results
      else if any_in [''hypoth'' @ [CHR 0xE8] @ ''se'', ''hypothesis'', ''appuie'',
                      ''support''] ctx then label_hypothesis
      else if any_in [''exemple'', ''example'', ''cas'', ''case'', ''application''] ctx
      then label_example
      else label_general)"

definition usage_contexts :: "string \<Rightarrow> parsed_ref \<Rightarrow> string list" where
  "usage_contexts text ref_parsed =
     map (\<lambda>c. classify_context (lower (context_window c)))
       (take 3 (find_reference_citations text ref_parsed))"

text \<open>
  \<open>analyze_reference_usage\<close> returns the pair (description, importance). The description
  is \<open>", ".join(set(usage_contexts))\<close>. Python fixes no iteration order for a set of
  strings: it follows the strings' hashes, which are salted anew for each process. The
  iteration is therefore a parameter \<open>set_iter\<close>, which maps the labels as they were
  inserted to the labels as the set yields them; \<open>set_iteration\<close> says what every such
  iteration satisfies.
\<close>

definition analyze_reference_usage ::
  "(string list \<Rightarrow> string list) \<Rightarrow> string \<Rightarrow> parsed_ref \<Rightarrow> string \<times> int" where
  "analyze_reference_usage set_iter text ref_parsed =
     (let citations = find_reference_citations text ref_parsed in
      if citations = [] then (default_usage, 30)
      else
        (let ucs = usage_contexts text ref_parsed;
             base = (if length citations > 5 then 85
                     else if length citations > 2 then 70
                     else if length citations > 0 then 50 else 50);
             importance = (if label_method \<in> set ucs \<or> label_theory \<in> set ucs
                           then min 100 (base + 15) else base);
             usage_description = (if ucs \<noteq> [] then join '', '' (set_iter ucs) else label_general)
         in (usage_description, importance)))"

definition set_iteration :: "(string list \<Rightarrow> string list) \<Rightarrow> bool" where
  "set_iteration it = (\<forall>xs. distinct (it xs) \<and> set (it xs) = set xs)"

text \<open>
  Two iterations: in the order of first insertion (the order the specification
  describes), and with the label inserted last coming first.
\<close>

definition first_seen :: "string list \<Rightarrow> string list" where
  "first_seen xs = rev (remdups (rev xs))"

definition last_seen_first :: "string list \<Rightarrow> string list" where
  "last_seen_first xs = remdups (rev xs)"

section \<open>Theme classifier (analyze\_references.py)\<close>

text \<open>
  The keyword lists and labels of \<open>categorize_theme\<close>, in the order of its branches.
  The script also computes \<open>title_lower\<close> and \<open>usage_lower\<close> and never reads them.
\<close>

definition kw_gnss :: "string list" where
  "kw_gnss = [''gnss'', ''gps'', ''acoustic'', ''acoustique'', ''positioning'',
              ''positionnement'', ''seafloor'', ''fond de mer'']"

definition kw_geodesy :: "string list" where
  "kw_geodesy = [''geodesy'', ''g'' @ [CHR 0xE9] @ ''od'' @ [CHR 0xE9] @ ''sie'', ''deformation'',
                 ''d'' @ [CHR 0xE9] @ ''formation'', ''strain'', ''fault'', ''faille'']"

definition kw_processing :: "string list" where
  "kw_processing = [''optimization'', ''optimisation'', ''processing'', ''traitement'',
                    ''algorithm'', ''algorithme'', ''filter'', ''filtre'']"

definition kw_modeling :: "string list" where
  "kw_modeling = [''model'', ''mod'' @ [CHR 0xE8] @ ''le'', ''simulation'', ''numerical'',
                  ''num'' @ [CHR 0xE9] @ ''rique'', ''theoretical'', ''th'' @ [CHR 0xE9] @ ''orique'']"

definition kw_instruments :: "string list" where
  "kw_instruments = [''instrument'', ''sensor'', ''capteur'', ''measurement'', ''mesure'',
                     ''pressure'', ''pression'', ''tiltmeter'']"

definition theme_gnss :: string where
  "theme_gnss = ''M'' @ [CHR 0xE9] @ ''thodes GNSS-Acoustique''"

definition theme_geodesy :: string where
  "theme_geodesy = ''G'' @ [CHR 0xE9] @ ''od'' @ [CHR 0xE9] @ ''sie des fonds marins''"

definition theme_processing :: string where
  "theme_processing = ''Optimisation et traitement de donn'' @ [CHR 0xE9] @ ''es''"

definition theme_modeling :: string where
  "theme_modeling = ''Mod'' @ [CHR 0xE9] @ ''lisation et simulation''"

definition theme_instruments :: string where
  "theme_instruments = ''Instruments et techniques de mesure''"

definition theme_applications :: string where
  "theme_applications = ''Applications et '' @ [CHR 0xE9] @ ''tudes de cas''"

definition categorize_theme :: "parsed_ref \<Rightarrow> string \<Rightarrow> string" where
  "categorize_theme ref_parsed usage_desc =
     (let full_text = lower (full_ref ref_parsed @ '' '' @ usage_desc) in
      if any_in kw_gnss full_text then theme_gnss
      else if any_in kw_geodesy full_text then theme_geodesy
      else if any_in kw_processing full_text then theme_processing
      else if any_in kw_modeling full_text then theme_modeling
      else if any_in kw_instruments full_text then theme_instruments
      else theme_applications)"

text \<open>
  The priority-ordered rule list and the six-label vocabulary of section 4.5 of the
  specification, for comparison with the branches of \<open>categorize_theme\<close>.
\<close>

definition theme_rules :: "(string list \<times> string) list" where
  "theme_rules = [(kw_gnss, theme_gnss), (kw_geodesy, theme_geodesy),
                  (kw_processing, theme_processing), (kw_modeling, theme_modeling),
                  (kw_instruments, theme_instruments)]"

definition theme_vocabulary :: "string list" where
  "theme_vocabulary = [theme_gnss, theme_geodesy, theme_processing, theme_modeling,
                       theme_instruments, theme_applications]"

section \<open>Table emission (analyze\_references.py) and table normalizer (extract\_references.py)\<close>

text \<open>The six headers of the table the pipeline prints.\<close>

definition h_reference :: string where
  "h_reference = ''R'' @ [CHR 0xE9] @ ''f'' @ [CHR 0xE9] @ ''rence''"

definition h_theme :: string where
  "h_theme = ''Th'' @ [CHR 0xE8] @ ''me''"

definition h_arguments :: string where
  "h_arguments = ''Arguments '' @ [CHR 0xE9] @ ''tay'' @ [CHR 0xE9] @ ''s''"

definition h_importance :: string where
  "h_importance = ''Note d'' @ [CHR 0x27] @ ''importance''"

definition h_year :: string where
  "h_year = ''Ann'' @ [CHR 0xE9] @ ''e''"

definition h_link :: string where
  "h_link = ''Lien web''"

definition table_headers :: "string list" where
  "table_headers = [h_reference, h_theme, h_arguments, h_importance, h_year, h_link]"

text \<open>
  One entry of \<open>results\<close> in the main block of analyze\_references.py (the dictionary
  with the keys reference, theme, usage, importance, year, link).
\<close>

record result_row =
  row_reference :: string
  row_theme :: string
  row_usage :: string
  row_importance :: int
  row_year :: string
  row_link :: string

text \<open>\<open>str_int\<close> is the decimal rendering of an \<open>int\<close> in an f-string.\<close>

fun digits :: "nat \<Rightarrow> string" where
  "digits n = (if n < 10 then [''0123456789'' ! n]
               else digits (n div 10) @ [''0123456789'' ! (n mod 10)])"

declare digits.simps [simp del]

definition str_int :: "int \<Rightarrow> string" where
  "str_int i = (if i < 0 then CHR ''-'' # digits (nat (- i)) else digits (nat i))"

text \<open>
  The three \<open>print\<close> calls: the header line, the separator line, and one line for each
  result, with every pipe of the reference written as backslash pipe. \<open>print\<close> ends each
  line with a newline.
\<close>

definition header_line :: string where
  "header_line = ''| '' @ h_reference @ '' | '' @ h_theme @ '' | '' @ h_arguments @ '' | '' @
                 h_importance @ '' | '' @ h_year @ '' | '' @ h_link @ '' |''"

definition separator_line :: string where
  "separator_line =
     ''|-----------|-------|------------------|-------------------|-------|----------|''"

definition row_line :: "result_row \<Rightarrow> string" where
  "row_line r =
     (let ref = replace ''|'' [CHR 0x5C, CHR ''|''] (row_reference r) in
      ''| '' @ ref @ '' | '' @ row_theme r @ '' | '' @ row_usage r @ '' | '' @
      str_int (row_importance r) @ '' | '' @ row_year r @ '' | '' @ row_link r @ '' |'')"

definition emit_table :: "result_row list \<Rightarrow> string" where
  "emit_table results =
     concat (map (\<lambda>l. l @ [CHR 0x0A]) (header_line # separator_line # map row_line results))"

text \<open>
  \<open>parse_markdown_table\<close> on a \<open>str\<close> (the branch for \<open>bytes\<close> only decodes).
  A line is a separator when \<open>re.match(r'^[\|\s\-:]+$', line)\<close> succeeds: the line is
  not empty and all its characters are in the class (a stripped line has no trailing
  newline for \<open>$\<close> to skip). \<open>inner_cells\<close> is
  \<open>[cell.strip() for cell in line.split('|')[1:-1]]\<close>. \<open>fix_header\<close> and \<open>fix_cell\<close>
  are the chains of \<open>replace\<close> calls on a header and on a cell.
\<close>

definition is_separator_line :: "string \<Rightarrow> bool" where
  "is_separator_line l =
     (l \<noteq> [] \<and> list_all (\<lambda>c. c = CHR ''|'' \<or> is_space c \<or> c = CHR ''-'' \<or> c = CHR '':'') l)"

definition inner_cells :: "string \<Rightarrow> string list" where
  "inner_cells l = map strip (butlast (tl (split_on (CHR ''|'') l)))"

definition fix_cell :: "string \<Rightarrow> string" where
  "fix_cell c =
     replace (''Ann'' @ [CHR 0xC3, CHR 0xA9] @ ''e'') h_year
       (replace (''Th'' @ [CHR 0xC3, CHR 0xA8] @ ''me'') h_theme
         (replace (''Arguments '' @ [CHR 0xC3, CHR 0xA9] @ ''tay'' @ [CHR 0xC3, CHR 0xA9] @ ''s'')
            h_arguments
           (replace (''R'' @ [CHR 0xC3, CHR 0xA9] @ ''f'' @ [CHR 0xC3, CHR 0xA9] @ ''rence'')
              h_reference c)))"

definition fix_header :: "string \<Rightarrow> string" where
  "fix_header h =
     replace (''Ann'' @ [CHR 0xC3, CHR 0xA9] @ ''e'') h_year
       (replace (''Th'' @ [CHR 0xC3, CHR 0xA8] @ ''me'') h_theme
         (replace h_importance h_importance
           (replace (''Arguments '' @ [CHR 0xC3, CHR 0xA9] @ ''tay'' @ [CHR 0xC3, CHR 0xA9] @ ''s'')
              h_arguments
             (replace (''R'' @ [CHR 0xC3, CHR 0xA9] @ ''f'' @ [CHR 0xC3, CHR 0xA9] @ ''rence'')
                h_reference h))))"

definition parse_markdown_table :: "string \<Rightarrow> string list \<times> string list list" where
  "parse_markdown_table table_content =
     (if table_content = [] then ([], [])
      else
        (let lines = filter (\<lambda>l. l \<noteq> []) (map strip (split_on (CHR 0x0A) table_content)) in
         if length lines < 2 then ([], [])
         else
           (let data_lines = filter (\<lambda>l. \<not> is_separator_line l) lines in
            if data_lines = [] then ([], [])
            else
              (let headers = map fix_header (inner_cells (hd data_lines));
                   data_rows = map (map fix_cell)
                                 (filter (\<lambda>cells. length cells = length headers)
                                    (map inner_cells (tl data_lines)))
               in (headers, data_rows)))))"

text \<open>
  \<open>consolidate_themes\<close>. \<open>index_of\<close> is \<open>list.index\<close>, with \<open>None\<close> for its
  \<open>ValueError\<close>. The dictionary \<open>theme_counts\<close> keeps its keys in the order of first
  insertion, so it is an association list; \<open>bump\<close> is
  \<open>theme_counts[theme] = theme_counts.get(theme, 0) + 1\<close>. \<open>sorted\<close> with
  \<open>reverse=True\<close> is stable, like \<open>sort_key\<close> on the negated count. \<open>slice_to\<close> and
  \<open>slice_from\<close> are the slices \<open>xs[:m]\<close> and \<open>xs[m:]\<close> for any integer \<open>m\<close>. The script
  rewrites the rows in place and returns them; the model returns the new rows.
\<close>

fun index_of :: "'a \<Rightarrow> 'a list \<Rightarrow> nat option" where
  "index_of x [] = None"
| "index_of x (y # ys) = (if x = y then Some 0 else map_option Suc (index_of x ys))"

fun bump :: "string \<Rightarrow> (string \<times> nat) list \<Rightarrow> (string \<times> nat) list" where
  "bump t [] = [(t, 1)]"
| "bump t ((k, n) # kvs) = (if k = t then (k, Suc n) # kvs else (k, n) # bump t kvs)"

definition count_themes :: "nat \<Rightarrow> string list list \<Rightarrow> (string \<times> nat) list" where
  "count_themes theme_idx data_rows =
     fold (\<lambda>row counts. if theme_idx < length row then bump (strip (row ! theme_idx)) counts
                         else counts) data_rows []"

definition slice_to :: "int \<Rightarrow> 'a list \<Rightarrow> 'a list" where
  "slice_to m xs = (if 0 \<le> m then take (nat m) xs else take (length xs - nat (- m)) xs)"

definition slice_from :: "int \<Rightarrow> 'a list \<Rightarrow> 'a list" where
  "slice_from m xs = (if 0 \<le> m then drop (nat m) xs else drop (length xs - nat (- m)) xs)"

definition consolidate_themes ::
  "string list \<Rightarrow> string list list \<Rightarrow> int \<Rightarrow> string list \<times> string list list" where
  "consolidate_themes headers data_rows max_themes =
     (case index_of h_theme headers of
        None \<Rightarrow> (headers, data_rows)
      | Some theme_idx \<Rightarrow>
          (let theme_counts = count_themes theme_idx data_rows in
           if int (length theme_counts) \<le> max_themes then (headers, data_rows)
           else
             (let sorted_themes = sort_key (\<lambda>tc. - int (snd tc)) theme_counts;
                  main_themes = map fst (slice_to max_themes sorted_themes);
                  other_themes = map fst (slice_from max_themes sorted_themes)
              in if other_themes \<noteq> [] then
                   (let theme_mapping =
                          fold (\<lambda>t m. m(t \<mapsto> ''Autre'')) other_themes
                            ((map_of (map (\<lambda>t. (t, t)) main_themes))(''Autre'' \<mapsto> ''Autre''))
                    in (headers,
                        map (\<lambda>row. if theme_idx < length row
                                    then (case theme_mapping (strip (row ! theme_idx)) of
                                            Some t \<Rightarrow> row[theme_idx := t]
                                          | None \<Rightarrow> row)
                                    else row) data_rows))
                 else (headers, data_rows))))"

text \<open>
  For the statements about tables: the distinct theme values of a table, in the order of
  first occurrence; the row of strings that stands for a result; a padded cell as
  \<open>row_line\<close> writes it; and the cells that survive a line-based, pipe-delimited
  serialization: no pipe, no newline, no whitespace at either end.
\<close>

definition theme_values :: "string list \<Rightarrow> string list list \<Rightarrow> string list" where
  "theme_values headers data_rows =
     (case index_of h_theme headers of
        None \<Rightarrow> []
      | Some i \<Rightarrow>
          rev (remdups (rev (map (\<lambda>row. strip (row ! i)) (filter (\<lambda>row. i < length row) data_rows)))))"

definition cells_of :: "result_row \<Rightarrow> string list" where
  "cells_of r = [row_reference r, row_theme r, row_usage r, str_int (row_importance r),
                 row_year r, row_link r]"

definition pad :: "string \<Rightarrow> string" where
  "pad c = CHR '' '' # c @ '' ''"

definition clean_cell :: "string \<Rightarrow> bool" where
  "clean_cell c = (CHR ''|'' \<notin> set c \<and> CHR 0x0A \<notin> set c \<and> strip c = c)"

definition clean_row :: "result_row \<Rightarrow> bool" where
  "clean_row r = list_all clean_cell
                   [row_reference r, row_theme r, row_usage r, row_year r, row_link r]"

section \<open>Properties of the entry parser\<close>

lemma match_One_iff:
  "match_here ic ((One, k) # r) s = Some n \<longleftrightarrow>
     (\<exists>c cs m. s = c # cs \<and> cmatch ic k c \<and> match_here ic r cs = Some m \<and> n = Suc m)"
  by (cases s) auto

lemma is_year_cases:
  "is_year y \<longleftrightarrow>
     (\<exists>a b c d. is_digit a \<and> is_digit b \<and> is_digit c \<and> is_digit d \<and>
        (y = [a, b, c, d] \<or> (\<exists>e. is_lower_az e \<and> y = [a, b, c, d, e])))"
  (is "_ \<longleftrightarrow> ?R")
proof
  assume h: "is_year y"
  then have len: "length y = 4 \<or> length y = 5" by (auto simp: is_year_def)
  then obtain a b c d r where y: "y = a # b # c # d # r" and r: "r = [] \<or> (\<exists>e. r = [e])"
    by (cases y; simp; rename_tac y1; case_tac y1; simp; rename_tac y2; case_tac y2; simp;
        rename_tac y3; case_tac y3; simp; rename_tac y4; case_tac y4; simp)
  from h y r show ?R
    by (auto simp: is_year_def)
next
  assume ?R
  then show "is_year y" by (auto simp: is_year_def)
qed

lemma not_az_paren: "\<not> is_lower_az (CHR '')'')"
  by (simp add: is_lower_az_def)

lemma year_tail_match:
  "match_here False [(Opt, LowerAZ), (One, Lit (CHR '')''))] s = Some m \<longleftrightarrow>
     (\<exists>r. (s = CHR '')'' # r \<and> m = 1) \<or> (\<exists>e. is_lower_az e \<and> s = e # CHR '')'' # r \<and> m = 2))"
proof (cases s)
  case Nil then show ?thesis by simp
next
  case (Cons c cs)
  show ?thesis
  proof (cases cs)
    case Nil with Cons show ?thesis by (auto simp: not_az_paren)
  next
    case (Cons d ds)
    with \<open>s = c # cs\<close> show ?thesis by (auto simp: not_az_paren)
  qed
qed

lemma match_year_re:
  "match_here False year_re s = Some n \<longleftrightarrow>
     (\<exists>y. is_year y \<and> prefix (''('' @ y @ '')'') s \<and> n = length y + 2)"
  unfolding year_re_def match_One_iff year_tail_match is_year_cases
  apply (auto simp: prefix_def)
  subgoal for c ca cb cc r
    by (rule exI[of _ "[c, ca, cb, cc]"]) auto
  subgoal for c ca cb cc r e
    by (rule exI[of _ "[c, ca, cb, cc, e]"]) auto
  done

lemma match_year_re_None:
  "match_here False year_re s = None \<longleftrightarrow> \<not> (\<exists>y. is_year y \<and> prefix (''('' @ y @ '')'') s)"
  using match_year_re[of s] by (cases "match_here False year_re s") auto

lemma year_search_Some:
  "re_search_from False year_re pos s = Some (a, b) \<Longrightarrow>
     \<exists>k y. a = pos + k \<and> b = a + length y + 2 \<and> year_occurs_at s k y \<and>
           (\<forall>j y'. year_occurs_at s j y' \<longrightarrow> k \<le> j)"
proof (induction s arbitrary: pos)
  case Nil
  then show ?case
    by (auto simp: match_year_re year_occurs_at_def split: option.splits)
next
  case (Cons c cs)
  show ?case
  proof (cases "match_here False year_re (c # cs)")
    case (Some n)
    with Cons.prems have ab: "a = pos" "b = pos + n" by auto
    from Some obtain y where "is_year y" "prefix (''('' @ y @ '')'') (c # cs)" "n = length y + 2"
      by (auto simp: match_year_re)
    with ab show ?thesis
      by (intro exI[of _ 0] exI[of _ y]) (auto simp: year_occurs_at_def)
  next
    case None
    with Cons.prems have "re_search_from False year_re (Suc pos) cs = Some (a, b)" by simp
    from Cons.IH[OF this] obtain k y where k: "a = Suc pos + k" "b = a + length y + 2"
      "year_occurs_at cs k y" "\<forall>j y'. year_occurs_at cs j y' \<longrightarrow> k \<le> j" by blast
    have no0: "\<not> year_occurs_at (c # cs) 0 y'" for y'
      using None by (auto simp: match_year_re_None year_occurs_at_def)
    have "\<forall>j y'. year_occurs_at (c # cs) j y' \<longrightarrow> Suc k \<le> j"
    proof (intro allI impI)
      fix j y' assume h: "year_occurs_at (c # cs) j y'"
      with no0 obtain j' where "j = Suc j'" by (cases j) auto
      with h have "year_occurs_at cs j' y'" by (simp add: year_occurs_at_def)
      with k(4) have "k \<le> j'" by blast
      with \<open>j = Suc j'\<close> show "Suc k \<le> j" by simp
    qed
    with k show ?thesis
      by (intro exI[of _ "Suc k"] exI[of _ y]) (auto simp: year_occurs_at_def)
  qed
qed

lemma year_search_None:
  "re_search_from False year_re pos s = None \<Longrightarrow> \<not> year_occurs_at s k y"
proof (induction s arbitrary: pos k)
  case Nil
  then show ?case
    by (auto simp: match_year_re_None year_occurs_at_def split: option.splits)
next
  case (Cons c cs)
  from Cons.prems have m: "match_here False year_re (c # cs) = None"
    and r: "re_search_from False year_re (Suc pos) cs = None"
    by (auto split: option.splits)
  show ?case
  proof (cases k)
    case 0
    with m show ?thesis by (auto simp: match_year_re_None year_occurs_at_def)
  next
    case (Suc k')
    with Cons.IH[OF r, of k'] show ?thesis by (simp add: year_occurs_at_def)
  qed
qed

lemma year_occurs_slice:
  "year_occurs_at s k y \<Longrightarrow> slice (Suc k) (k + length y + 1) s = y"
proof -
  assume "year_occurs_at s k y"
  then obtain zs where d: "drop k s = CHR ''('' # y @ CHR '')'' # zs"
    by (auto simp: year_occurs_at_def prefix_def)
  have "drop (Suc k) s = tl (drop k s)" by (simp add: drop_Suc tl_drop)
  with d have "drop (Suc k) s = y @ CHR '')'' # zs" by simp
  then show ?thesis by (simp add: slice_def)
qed

lemma is_year_nonempty: "is_year y \<Longrightarrow> y \<noteq> []"
  by (auto simp: is_year_def)

lemma split_on_nonempty: "split_on sep s \<noteq> []"
  by (induction s) (auto split: list.splits)

lemma year_search_first:
  assumes "year_occurs_at t k y" and "\<forall>j y'. year_occurs_at t j y' \<longrightarrow> k \<le> j"
  shows "\<exists>e. re_search False year_re t = Some (k, e)"
proof (cases "re_search False year_re t")
  case None
  with year_search_None[of 0 t k y] assms(1) show ?thesis by (simp add: re_search_def)
next
  case (Some p)
  obtain a b where p: "p = (a, b)" by (cases p)
  with Some have "re_search_from False year_re 0 t = Some (a, b)" by (simp add: re_search_def)
  from year_search_Some[OF this] obtain y0 where
    "year_occurs_at t a y0" "\<forall>j y'. year_occurs_at t j y' \<longrightarrow> a \<le> j" by auto
  with assms have "a = k" by (meson le_antisym)
  with Some p show ?thesis by simp
qed

text \<open>
  Claim C9. Whenever the entry text contains a parenthesized year (four digits and an
  optional lowercase letter), the \<open>year\<close> field is non-empty and is the year standing at
  the leftmost such occurrence; when the text contains none, the field is the empty
  string. \<open>parse_reference\<close> is a total function: it returns a record for every text.
\<close>

theorem year_field_first_parenthesized:
  "((\<exists>k y. year_occurs_at text k y) \<longrightarrow>
      year (parse_reference text) \<noteq> [] \<and>
      (\<exists>k. year_occurs_at text k (year (parse_reference text)) \<and>
           (\<forall>j y'. year_occurs_at text j y' \<longrightarrow> k \<le> j))) \<and>
   (\<not> (\<exists>k y. year_occurs_at text k y) \<longrightarrow> year (parse_reference text) = [])"
proof (cases "re_search False year_re text")
  case None
  then have "\<not> year_occurs_at text k y" for k y
    using year_search_None[of 0 "text" k y] by (simp add: re_search_def)
  moreover from None have "year (parse_reference text) = []"
    by (simp add: parse_reference_def Let_def)
  ultimately show ?thesis by blast
next
  case (Some p)
  obtain a b where p: "p = (a, b)" by (cases p)
  with Some have "re_search_from False year_re 0 text = Some (a, b)" by (simp add: re_search_def)
  from year_search_Some[OF this] obtain y where y: "b = a + length y + 2"
    "year_occurs_at text a y" "\<forall>j y'. year_occurs_at text j y' \<longrightarrow> a \<le> j" by auto
  from Some p y(1) have "year (parse_reference text) = slice (Suc a) (a + length y + 1) text"
    by (simp add: parse_reference_def Let_def)
  with year_occurs_slice[OF y(2)] have yr: "year (parse_reference text) = y" by simp
  from y(2) have "y \<noteq> []" by (auto simp: year_occurs_at_def is_year_nonempty)
  with yr y show ?thesis by auto
qed

theorem year_field_first_parenthesized_witness:
  "(\<exists>k y. year_occurs_at ''Smith (2019a), T'' k y) \<and>
   year (parse_reference ''Smith (2019a), T'') \<noteq> [] \<and>
   \<not> (\<exists>k y. year_occurs_at ''Smith 2019, T'' k y) \<and>
   year (parse_reference ''Smith 2019, T'') = []"
proof -
  have "year_occurs_at ''Smith (2019a), T'' 6 ''2019a''" by code_simp
  then have h: "\<exists>k y. year_occurs_at ''Smith (2019a), T'' k y" by blast
  have e: "year (parse_reference ''Smith 2019, T'') = []" by code_simp
  from year_field_first_parenthesized[of "''Smith 2019, T''"] e
  have n: "\<not> (\<exists>k y. year_occurs_at ''Smith 2019, T'' k y)" by blast
  from year_field_first_parenthesized[of "''Smith (2019a), T''"] h n e show ?thesis by blast
qed

text \<open>
  Claim C8. The display label is the authors field, a space, the year field in
  parentheses, and then \<open>" - "\<close> and the title exactly when the title is not empty.
\<close>

theorem display_label_format:
  "display (parse_reference t) =
     authors (parse_reference t) @ '' ('' @ year (parse_reference t) @ '')'' @
       (if title (parse_reference t) = [] then [] else '' - '' @ title (parse_reference t))"
  by (simp add: parse_reference_def Let_def)

theorem display_label_format_witness:
  "display (parse_reference ''Smith, J. (2019). A Method, J. Geo'') = ''Smith, J. (2019) - . A Method'' \<and>
   authors (parse_reference ''Smith, J. (2019). A Method, J. Geo'') = ''Smith, J.'' \<and>
   year (parse_reference ''Smith, J. (2019). A Method, J. Geo'') = ''2019'' \<and>
   title (parse_reference ''Smith, J. (2019). A Method, J. Geo'') = ''. A Method''"
proof -
  have a: "authors (parse_reference ''Smith, J. (2019). A Method, J. Geo'') = ''Smith, J.''"
    by code_simp
  have y: "year (parse_reference ''Smith, J. (2019). A Method, J. Geo'') = ''2019''"
    by code_simp
  have t: "title (parse_reference ''Smith, J. (2019). A Method, J. Geo'') = ''. A Method''"
    by code_simp
  from display_label_format[of "''Smith, J. (2019). A Method, J. Geo''"] a y t
  show ?thesis by simp
qed

text \<open>
  Claim C6, as amended. Let \<open>p\<close> be the stripped, whitespace-normalized text before the
  first parenthesized year. When \<open>p\<close> holds no comma followed by a space, the authors field
  is \<open>p\<close> itself. Otherwise, when the lowercased \<open>p\<close> contains \<open>et al\<close> (no period
  needed, any case), it is the stripped first comma-separated token followed by
  \<open>" et al."\<close>; otherwise it is the first three tokens at most, each stripped, joined by
  \<open>", "\<close>, with \<open>" et al."\<close> appended exactly when there are more than three tokens.
\<close>

theorem authors_field_from_year_prefix:
  assumes "year_occurs_at t k y" and "\<forall>j y'. year_occurs_at t j y' \<longrightarrow> k \<le> j"
  shows "authors (parse_reference t) =
    (let p = collapse_ws (strip (take k t)); toks = split_on (CHR '','') p in
     if \<not> sublist '', '' p then p
     else if sublist ''et al'' (lower p) then strip (hd toks) @ '' et al.''
     else join '', '' (map strip (take 3 toks)) @ (if length toks > 3 then '' et al.'' else []))"
proof -
  from year_search_first[OF assms] obtain e where "re_search False year_re t = Some (k, e)" ..
  then show ?thesis by (simp add: parse_reference_def Let_def)
qed

theorem authors_field_from_year_prefix_witness:
  "year_occurs_at ''Smith, J., Doe, K., Roe, P. (2019a) x'' 28 ''2019a'' \<and>
   authors (parse_reference ''Smith, J., Doe, K., Roe, P. (2019a) x'') = ''Smith, J., Doe et al.''"
proof -
  let ?t = "''Smith, J., Doe, K., Roe, P. (2019a) x''"
  have "re_search_from False year_re 0 ?t = Some (28, 35)" by code_simp
  from year_search_Some[OF this] obtain y where
    y: "year_occurs_at ?t 28 y" "\<forall>j y'. year_occurs_at ?t j y' \<longrightarrow> 28 \<le> j" by auto
  have o: "year_occurs_at ?t 28 ''2019a''" by code_simp
  have "authors (parse_reference ?t) =
    (let p = collapse_ws (strip (take 28 ?t)); toks = split_on (CHR '','') p in
     if \<not> sublist '', '' p then p
     else if sublist ''et al'' (lower p) then strip (hd toks) @ '' et al.''
     else join '', '' (map strip (take 3 toks)) @ (if length toks > 3 then '' et al.'' else []))"
    by (rule authors_field_from_year_prefix[OF o y(2)])
  also have "\<dots> = ''Smith, J., Doe et al.''" by code_simp
  finally show ?thesis using o by simp
qed

text \<open>
  Claim C6 as the specification words it fails: a prefix with four tokens and no comma
  followed by a space is returned unchanged, without \<open>" et al."\<close>; and a prefix that
  merely contains the letters \<open>et al\<close> (here inside "Margaret Allen") is cut to its first
  token.
\<close>

theorem authors_field_counterexample:
  "authors (parse_reference ''A,B,C,D (2019) x'') = ''A,B,C,D'' \<and>
   spec_authors (collapse_ws (strip ''A,B,C,D '')) = ''A,B,C et al.'' \<and>
   authors (parse_reference ''Margaret Allen, B. (2019) x'') = ''Margaret Allen et al.'' \<and>
   spec_authors (collapse_ws (strip ''Margaret Allen, B. '')) = ''Margaret Allen, B.''"
  by code_simp

section \<open>Properties of the citation locator\<close>


































section \<open>Properties of the usage classifier\<close>

lemma usage_contexts_nonempty:
  "find_reference_citations text ref_parsed \<noteq> [] \<Longrightarrow> usage_contexts text ref_parsed \<noteq> []"
  by (simp add: usage_contexts_def)

lemma set_iteration_first_seen: "set_iteration first_seen"
  by (simp add: set_iteration_def first_seen_def)

lemma set_iteration_last_seen_first: "set_iteration last_seen_first"
  by (simp add: set_iteration_def last_seen_first_def)

text \<open>
  Claim C3, as amended. For a reference with at least one citation, the usage
  description is the \<open>", "\<close>-join of an enumeration without repetition of exactly the
  labels given to the first three context windows at most; the order of the labels is the
  iteration order of the set and nothing ties it to the order of insertion.
\<close>

theorem usage_description_joins_label_set:
  assumes "find_reference_citations text ref_parsed \<noteq> []" and "set_iteration it"
  shows "\<exists>ls. distinct ls \<and>
              set ls = (\<lambda>c. classify_context (lower (context_window c))) `
                         set (take 3 (find_reference_citations text ref_parsed)) \<and>
              fst (analyze_reference_usage it text ref_parsed) = join '', '' ls"
proof -
  let ?ucs = "usage_contexts text ref_parsed"
  from assms(1) have ne: "?ucs \<noteq> []" by (rule usage_contexts_nonempty)
  with assms(1) have "fst (analyze_reference_usage it text ref_parsed) = join '', '' (it ?ucs)"
    by (simp add: analyze_reference_usage_def Let_def)
  moreover from assms(2) have "distinct (it ?ucs)" "set (it ?ucs) = set ?ucs"
    by (simp_all add: set_iteration_def)
  moreover have "set ?ucs = (\<lambda>c. classify_context (lower (context_window c))) `
                         set (take 3 (find_reference_citations text ref_parsed))"
    by (simp add: usage_contexts_def)
  ultimately show ?thesis by metis
qed

theorem usage_description_joins_label_set_witness:
  "find_reference_citations ''Smith (2019) used this method''
     (parse_reference ''Smith (2019). A title, Journal'') \<noteq> [] \<and>
   set_iteration first_seen \<and>
   (\<exists>ls. distinct ls \<and>
      set ls = (\<lambda>c. classify_context (lower (context_window c))) `
                 set (take 3 (find_reference_citations ''Smith (2019) used this method''
                                (parse_reference ''Smith (2019). A title, Journal''))) \<and>
      fst (analyze_reference_usage first_seen ''Smith (2019) used this method''
             (parse_reference ''Smith (2019). A title, Journal'')) = join '', '' ls)"
proof -
  have h: "find_reference_citations ''Smith (2019) used this method''
             (parse_reference ''Smith (2019). A title, Journal'') \<noteq> []"
    by code_simp
  from usage_description_joins_label_set[OF h set_iteration_first_seen] h set_iteration_first_seen
  show ?thesis by blast
qed

text \<open>
  Claim C3 as the specification words it fails, since the order of insertion is not
  guaranteed: for a document whose first three windows are
  labelled method, theory, method, a set that yields the label inserted last first gives
  the description "cadre theorique, justification de methode (with its accents)", while the order of first
  insertion is method, theory.
\<close>

theorem usage_description_order_counterexample:
  "set_iteration last_seen_first \<and>
   usage_contexts (''Smith (2019) method'' @ replicate 200 (CHR ''x'') @ '', Smith (2019) theory'')
     (parse_reference ''Smith (2019). A title, Journal'')
     = [label_method, label_theory, label_method] \<and>
   first_seen [label_method, label_theory, label_method] = [label_method, label_theory] \<and>
   fst (analyze_reference_usage last_seen_first
          (''Smith (2019) method'' @ replicate 200 (CHR ''x'') @ '', Smith (2019) theory'')
          (parse_reference ''Smith (2019). A title, Journal''))
     = join '', '' [label_theory, label_method]"
proof -
  let ?doc = "''Smith (2019) method'' @ replicate 200 (CHR ''x'') @ '', Smith (2019) theory''"
  let ?ref = "parse_reference ''Smith (2019). A title, Journal''"
  have uc: "usage_contexts ?doc ?ref = [label_method, label_theory, label_method]"
    by code_simp
  have ne: "label_method \<noteq> label_theory" by code_simp
  have fs: "first_seen [label_method, label_theory, label_method] = [label_method, label_theory]"
    using ne by (simp add: first_seen_def)
  have ls: "last_seen_first [label_method, label_theory, label_method] = [label_theory, label_method]"
    using ne by (auto simp: last_seen_first_def)
  have "find_reference_citations ?doc ?ref \<noteq> []"
    using uc by (auto simp: usage_contexts_def)
  then have "fst (analyze_reference_usage last_seen_first ?doc ?ref)
               = join '', '' (last_seen_first (usage_contexts ?doc ?ref))"
    by (simp add: analyze_reference_usage_def Let_def usage_contexts_nonempty)
  with uc ls fs set_iteration_last_seen_first show ?thesis by simp
qed

text \<open>
  Claim C4. The importance is 30 when no citation is found; otherwise it is 85 for more
  than five citations, 70 for more than two and 50 else, plus 15 (capped at 100) exactly
  when one of the first three windows is labelled method justification or theoretical
  framing. It always lies between 0 and 100.
\<close>

theorem importance_score_value:
  "snd (analyze_reference_usage it text ref_parsed) =
     (let n = length (find_reference_citations text ref_parsed) in
      if n = 0 then 30
      else min 100
             ((if n > 5 then 85 else if n > 2 then 70 else 50) +
              (if list_ex (\<lambda>c. classify_context (lower (context_window c)) \<in> {label_method, label_theory})
                    (take 3 (find_reference_citations text ref_parsed))
               then 15 else 0))) \<and>
   0 \<le> snd (analyze_reference_usage it text ref_parsed) \<and>
   snd (analyze_reference_usage it text ref_parsed) \<le> 100"
proof -
  let ?cs = "find_reference_citations text ref_parsed"
  let ?ucs = "usage_contexts text ref_parsed"
  have bonus: "list_ex (\<lambda>c. classify_context (lower (context_window c)) \<in> {label_method, label_theory})
                 (take 3 ?cs) \<longleftrightarrow> label_method \<in> set ?ucs \<or> label_theory \<in> set ?ucs"
    unfolding usage_contexts_def list_ex_iff set_map image_iff by (metis insert_iff singletonD)
  show ?thesis
  proof (cases "?cs = []")
    case True
    then show ?thesis by (simp add: analyze_reference_usage_def Let_def)
  next
    case False
    then have "0 < length ?cs" by simp
    with False show ?thesis
      unfolding bonus by (simp add: analyze_reference_usage_def Let_def)
  qed
qed

theorem importance_score_value_witness:
  "length (find_reference_citations ''Smith (2019) used this method''
             (parse_reference ''Smith (2019). A title, Journal'')) = 2 \<and>
   snd (analyze_reference_usage first_seen ''Smith (2019) used this method''
          (parse_reference ''Smith (2019). A title, Journal'')) = 65 \<and>
   snd (analyze_reference_usage first_seen ''no citation here''
          (parse_reference ''Smith (2019). A title, Journal'')) = 30"
proof -
  let ?ref = "parse_reference ''Smith (2019). A title, Journal''"
  have n: "length (find_reference_citations ''Smith (2019) used this method'' ?ref) = 2"
    by code_simp
  have b: "list_ex (\<lambda>c. classify_context (lower (context_window c)) \<in> {label_method, label_theory})
             (take 3 (find_reference_citations ''Smith (2019) used this method'' ?ref))"
    by code_simp
  have z: "length (find_reference_citations ''no citation here'' ?ref) = 0"
    by code_simp
  from importance_score_value[of first_seen "''Smith (2019) used this method''" ?ref]
       importance_score_value[of first_seen "''no citation here''" ?ref] n b z
  show ?thesis by (simp add: Let_def)
qed

section \<open>Properties of the theme classifier\<close>

lemma theme_rules_find:
  "(case find (\<lambda>rule. any_in (fst rule) s) theme_rules of
      Some rule \<Rightarrow> snd rule | None \<Rightarrow> theme_applications) =
   (if any_in kw_gnss s then theme_gnss
    else if any_in kw_geodesy s then theme_geodesy
    else if any_in kw_processing s then theme_processing
    else if any_in kw_modeling s then theme_modeling
    else if any_in kw_instruments s then theme_instruments
    else theme_applications)"
  by (simp add: theme_rules_def)

text \<open>
  Claim C7. The theme is the label of the first rule, in the fixed priority order
  (methods and positioning, marine geodesy, data optimization and processing, modeling
  and simulation, instruments and measurement), one of whose keywords occurs in the
  lowercased raw reference text followed by a space and the usage description; when no
  rule matches it is the applications and case studies label. It is always one of the six
  labels of the vocabulary.
\<close>

theorem theme_is_first_matching_rule:
  "categorize_theme ref_parsed usage_desc =
     (case find (\<lambda>rule. list_ex (\<lambda>w. sublist w (lower (full_ref ref_parsed @ '' '' @ usage_desc)))
                          (fst rule)) theme_rules of
        Some rule \<Rightarrow> snd rule
      | None \<Rightarrow> theme_applications) \<and>
   categorize_theme ref_parsed usage_desc \<in> set theme_vocabulary \<and>
   length theme_vocabulary = 6 \<and>
   map snd theme_rules @ [theme_applications] = theme_vocabulary"
proof -
  have "categorize_theme ref_parsed usage_desc =
     (case find (\<lambda>rule. any_in (fst rule) (lower (full_ref ref_parsed @ '' '' @ usage_desc)))
             theme_rules of
        Some rule \<Rightarrow> snd rule | None \<Rightarrow> theme_applications)"
    unfolding theme_rules_find by (simp add: categorize_theme_def Let_def)
  moreover have "categorize_theme ref_parsed usage_desc \<in> set theme_vocabulary"
    by (simp add: categorize_theme_def theme_vocabulary_def Let_def)
  moreover have "length theme_vocabulary = 6"
    "map snd theme_rules @ [theme_applications] = theme_vocabulary"
    by (simp_all add: theme_vocabulary_def theme_rules_def)
  ultimately show ?thesis by (simp add: any_in_def)
qed

theorem theme_is_first_matching_rule_witness:
  "categorize_theme (parse_reference ''Doe, J. (2001). Fault deformation models, J. Geo'') label_theory
     = theme_geodesy \<and>
   categorize_theme (parse_reference ''Doe, J. (2001). A walk, J. Geo'') label_general
     = theme_applications"
proof -
  let ?r1 = "parse_reference ''Doe, J. (2001). Fault deformation models, J. Geo''"
  let ?r2 = "parse_reference ''Doe, J. (2001). A walk, J. Geo''"
  have "(case find (\<lambda>rule. list_ex (\<lambda>w. sublist w (lower (full_ref ?r1 @ '' '' @ label_theory)))
                          (fst rule)) theme_rules of
        Some rule \<Rightarrow> snd rule | None \<Rightarrow> theme_applications) = theme_geodesy"
    by code_simp
  moreover have "(case find (\<lambda>rule. list_ex (\<lambda>w. sublist w (lower (full_ref ?r2 @ '' '' @ label_general)))
                          (fst rule)) theme_rules of
        Some rule \<Rightarrow> snd rule | None \<Rightarrow> theme_applications) = theme_applications"
    by code_simp
  ultimately show ?thesis
    using theme_is_first_matching_rule[of ?r1 label_theory]
          theme_is_first_matching_rule[of ?r2 label_general] by simp
qed

section \<open>Properties of the table emission and the table normalizer\<close>

lemma split_on_append:
  "sep \<notin> set a \<Longrightarrow> split_on sep (a @ sep # rest) = a # split_on sep rest"
  by (induction a) (auto split: list.splits simp: split_on_nonempty)

lemma split_terminated:
  "(\<forall>l \<in> set ls. sep \<notin> set l) \<Longrightarrow>
     split_on sep (concat (map (\<lambda>l. l @ [sep]) ls)) = ls @ [[]]"
  by (induction ls) (auto simp: split_on_append)

lemma strip_no_space_ends:
  assumes "s \<noteq> []" "\<not> is_space (hd s)" "\<not> is_space (last s)"
  shows "strip s = s"
proof -
  from assms(1,2) have "dropWhile is_space s = s" by (cases s) auto
  moreover from assms(1,3) have "dropWhile is_space (rev s) = rev s"
    by (cases "rev s") (auto simp: hd_rev[symmetric])
  ultimately show ?thesis by (simp add: strip_def)
qed

lemma strip_fixed_ends:
  assumes "strip s = s" "s \<noteq> []"
  shows "\<not> is_space (hd s) \<and> \<not> is_space (last s)"
proof -
  let ?d = "dropWhile is_space s"
  have l1: "length (strip s) \<le> length ?d"
    by (simp add: strip_def) (metis length_dropWhile_le length_rev)
  have hd: "\<not> is_space (hd s)"
  proof
    assume "is_space (hd s)"
    with assms(2) have "length ?d < length s"
      by (cases s) (auto simp: less_Suc_eq_le length_dropWhile_le)
    with l1 assms(1) show False by simp
  qed
  with assms(2) have d: "?d = s" by (cases s) auto
  have "\<not> is_space (last s)"
  proof
    assume sp: "is_space (last s)"
    from assms(2) obtain x xs where r: "rev s = x # xs" by (cases "rev s") auto
    with assms(2) have "x = last s" by (metis hd_rev list.sel(1))
    with sp have "dropWhile is_space (x # xs) = dropWhile is_space xs" by simp
    then have "dropWhile is_space (rev s) = dropWhile is_space xs" unfolding r .
    moreover have "length (dropWhile is_space xs) \<le> length xs" by (rule length_dropWhile_le)
    moreover from r have "length s = Suc (length xs)" by (metis length_Cons length_rev)
    ultimately have "length (dropWhile is_space (rev s)) < length s" by simp
    then have "length (strip s) < length s" by (simp add: strip_def d)
    with assms(1) show False by simp
  qed
  with hd show ?thesis ..
qed

lemma strip_pad:
  assumes "strip c = c"
  shows "strip (CHR '' '' # c @ '' '') = c"
proof (cases "c = []")
  case True
  then show ?thesis by (simp add: strip_def is_space_def)
next
  case False
  from strip_fixed_ends[OF assms False] have e: "\<not> is_space (hd c)" "\<not> is_space (last c)"
    by simp_all
  have sp: "is_space (CHR '' '')" by (simp add: is_space_def)
  from False e(1) have "dropWhile is_space (c @ '' '') = c @ '' ''" by (cases c) auto
  with sp have 1: "dropWhile is_space (CHR '' '' # c @ '' '') = c @ '' ''" by simp
  from False e(2) have "dropWhile is_space (rev c) = rev c"
    by (cases "rev c") (auto simp: hd_rev[symmetric])
  with sp have "dropWhile is_space (rev (c @ '' '')) = rev c" by simp
  with 1 show ?thesis by (simp add: strip_def)
qed

lemma strip_all_nonspace:
  assumes "\<forall>c \<in> set s. \<not> is_space c"
  shows "strip s = s"
proof (cases "s = []")
  case True
  then show ?thesis by (simp add: strip_def)
next
  case False
  with assms show ?thesis by (intro strip_no_space_ends) auto
qed

lemma replace_pipe_absent: "CHR ''|'' \<notin> set s \<Longrightarrow> replace ''|'' new s = s"
  by (induction s) auto

lemma digit_chars: "k < 10 \<Longrightarrow> ''0123456789'' ! k \<in> set ''0123456789''"
  by (rule nth_mem) simp

lemma digits_chars: "set (digits n) \<subseteq> set ''0123456789'' \<and> digits n \<noteq> []"
proof (induction n rule: digits.induct)
  case (1 n)
  show ?case
  proof (cases "n < 10")
    case True
    then show ?thesis using digit_chars[of n] by (subst (1 2) digits.simps) simp
  next
    case False
    with 1 digit_chars[of "n mod 10"] show ?thesis by (subst (1 2) digits.simps) simp
  qed
qed

lemma subset_cons: "set xs \<subseteq> D \<Longrightarrow> set (a # xs) \<subseteq> insert a D"
  by auto

lemma subset_insert_right: "set xs \<subseteq> D \<Longrightarrow> set xs \<subseteq> insert a D"
  by auto

lemma mem_cons_tail: "c \<in> set xs \<Longrightarrow> c \<in> set (a # xs)"
  by simp

lemma digits_nonempty_mem: "\<exists>c. c \<in> set (digits n)"
proof -
  from digits_chars[of n] have "digits n \<noteq> []" by (rule conjunct2)
  then obtain c cs where e: "digits n = c # cs" by (meson neq_Nil_conv)
  have "c \<in> set (digits n)" unfolding e by (rule list.set_intros(1))
  then show ?thesis ..
qed

lemma digits_subset: "set (digits n) \<subseteq> set ''0123456789''"
  using digits_chars[of n] by (rule conjunct1)

lemma str_int_neg: "i < 0 \<Longrightarrow> str_int i = CHR ''-'' # digits (nat (- i))"
  by (simp add: str_int_def)

lemma str_int_nonneg: "\<not> i < 0 \<Longrightarrow> str_int i = digits (nat i)"
  by (simp add: str_int_def)

lemma str_int_subset: "set (str_int i) \<subseteq> insert (CHR ''-'') (set ''0123456789'')"
proof (cases "i < 0")
  case True
  show ?thesis unfolding str_int_neg[OF True] by (rule subset_cons[OF digits_subset])
next
  case False
  show ?thesis unfolding str_int_nonneg[OF False] by (rule subset_insert_right[OF digits_subset])
qed

lemma str_int_has_digit: "\<exists>c \<in> set (str_int i). c \<in> set ''0123456789''"
proof (cases "i < 0")
  case True
  from digits_nonempty_mem[of "nat (- i)"] obtain c where c: "c \<in> set (digits (nat (- i)))" ..
  have a: "c \<in> set (str_int i)" unfolding str_int_neg[OF True] by (rule mem_cons_tail[OF c])
  have b: "c \<in> set ''0123456789''" by (rule subsetD[OF digits_subset c])
  show ?thesis
  proof (rule bexI)
    show "c \<in> set ''0123456789''" by (rule b)
    show "c \<in> set (str_int i)" by (rule a)
  qed
next
  case False
  from digits_nonempty_mem[of "nat i"] obtain c where c: "c \<in> set (digits (nat i))" ..
  have a: "c \<in> set (str_int i)" unfolding str_int_nonneg[OF False] by (rule c)
  have b: "c \<in> set ''0123456789''" by (rule subsetD[OF digits_subset c])
  show ?thesis
  proof (rule bexI)
    show "c \<in> set ''0123456789''" by (rule b)
    show "c \<in> set (str_int i)" by (rule a)
  qed
qed

lemma digit_not_special:
  "c \<in> set ''0123456789'' \<Longrightarrow>
     \<not> is_space c \<and> c \<noteq> CHR ''|'' \<and> c \<noteq> CHR 0x0A \<and> c \<noteq> CHR ''-'' \<and> c \<noteq> CHR '':''"
  by (auto simp: is_space_def)

lemma minus_not_special: "\<not> is_space (CHR ''-'')"
  by (simp add: is_space_def)

lemma str_int_clean: "clean_cell (str_int i)"
proof -
  have "\<not> is_space c \<and> c \<noteq> CHR ''|'' \<and> c \<noteq> CHR 0x0A" if "c \<in> set (str_int i)" for c
  proof -
    have "c \<in> insert (CHR ''-'') (set ''0123456789'')"
      by (rule subsetD[OF str_int_subset that])
    then have "c = CHR ''-'' \<or> c \<in> set ''0123456789''" by (rule insert_iff[THEN iffD1])
    then show ?thesis
    proof
      assume "c = CHR ''-''"
      then show ?thesis using minus_not_special by simp
    next
      assume "c \<in> set ''0123456789''"
      from digit_not_special[OF this] show ?thesis by blast
    qed
  qed
  then have "\<forall>c \<in> set (str_int i). \<not> is_space c" "CHR ''|'' \<notin> set (str_int i)"
    "CHR 0x0A \<notin> set (str_int i)" by blast+
  then show ?thesis by (simp add: clean_cell_def strip_all_nonspace)
qed

lemma row_line_cells:
  assumes "clean_row r"
  shows "row_line r = CHR ''|'' # concat (map (\<lambda>l. l @ ''|'') (map pad (cells_of r)))"
proof -
  from assms have "CHR ''|'' \<notin> set (row_reference r)"
    by (simp add: clean_row_def clean_cell_def)
  then have "replace ''|'' [CHR 0x5C, CHR ''|''] (row_reference r) = row_reference r"
    by (rule replace_pipe_absent)
  then show ?thesis by (simp add: row_line_def cells_of_def pad_def Let_def)
qed

lemma cells_clean: "clean_row r \<Longrightarrow> c \<in> set (cells_of r) \<Longrightarrow> clean_cell c"
  using str_int_clean[of "row_importance r"] by (auto simp: clean_row_def cells_of_def)

lemma pipe_not_space: "\<not> is_space (CHR ''|'')"
  by (simp add: is_space_def)

lemma pad_clean:
  assumes "clean_cell c"
  shows "CHR ''|'' \<notin> set (pad c)" "CHR 0x0A \<notin> set (pad c)" "strip (pad c) = c"
  using assms strip_pad[of c] by (auto simp: clean_cell_def pad_def)

lemma inner_cells_row:
  assumes "clean_row r"
  shows "inner_cells (row_line r) = cells_of r"
proof -
  let ?ps = "map pad (cells_of r)"
  have np: "\<forall>l \<in> set ?ps. CHR ''|'' \<notin> set l"
    using cells_clean[OF assms] pad_clean(1) by auto
  have "split_on (CHR ''|'') (row_line r) = [] # split_on (CHR ''|'') (concat (map (\<lambda>l. l @ ''|'') ?ps))"
    unfolding row_line_cells[OF assms] by simp
  also have "\<dots> = [] # ?ps @ [[]]" using split_terminated[OF np] by simp
  finally have "inner_cells (row_line r) = map strip ?ps" by (simp add: inner_cells_def)
  also have "\<dots> = cells_of r"
    using cells_clean[OF assms] pad_clean(3) by (simp add: map_idI)
  finally show ?thesis .
qed

lemma row_line_no_newline:
  assumes "clean_row r"
  shows "CHR 0x0A \<notin> set (row_line r)"
  unfolding row_line_cells[OF assms]
  using cells_clean[OF assms] pad_clean(2) by auto

lemma row_line_strip:
  assumes "clean_row r"
  shows "strip (row_line r) = row_line r" and "row_line r \<noteq> []"
proof -
  have h: "hd (row_line r) = CHR ''|''" and n: "row_line r \<noteq> []"
    by (simp_all add: row_line_def Let_def)
  have "last (row_line r) = CHR ''|''"
    by (simp add: row_line_def Let_def)
  with h n show "strip (row_line r) = row_line r"
    by (intro strip_no_space_ends) (simp_all add: pipe_not_space)
  from n show "row_line r \<noteq> []" .
qed

lemma row_line_not_separator: "\<not> is_separator_line (row_line r)"
proof -
  from str_int_has_digit[of "row_importance r"] obtain c where
    c: "c \<in> set (str_int (row_importance r))" "c \<in> set ''0123456789''" by blast
  from c(1) have "c \<in> set (row_line r)" by (simp add: row_line_def Let_def)
  moreover from digit_not_special[OF c(2)]
  have "\<not> (c = CHR ''|'' \<or> is_space c \<or> c = CHR ''-'' \<or> c = CHR '':'')" by blast
  ultimately show ?thesis by (auto simp: is_separator_line_def list_all_iff)
qed

lemma header_line_facts:
  "CHR 0x0A \<notin> set header_line" "strip header_line = header_line" "header_line \<noteq> []"
  "\<not> is_separator_line header_line" "map fix_header (inner_cells header_line) = table_headers"
  by code_simp+

lemma separator_line_facts:
  "CHR 0x0A \<notin> set separator_line" "strip separator_line = separator_line"
  "separator_line \<noteq> []" "is_separator_line separator_line"
  by code_simp+

lemma length_table_headers: "length table_headers = 6"
  by (simp add: table_headers_def)

lemma length_cells_of: "length (cells_of r) = 6"
  by (simp add: cells_of_def)

text \<open>
  Claim C2, as amended. For every sequence of results whose reference, theme, usage,
  year and link cells contain no pipe and no newline and have no whitespace at either
  end, parsing the emitted table returns the six headers and, for each result in order,
  its six cells with the known accent corrections applied.
\<close>

theorem table_round_trip:
  assumes "\<forall>r \<in> set results. clean_row r"
  shows "parse_markdown_table (emit_table results) =
           (table_headers, map (\<lambda>r. map fix_cell (cells_of r)) results)"
proof -
  define rows where "rows = map row_line results"
  define L where "L = header_line # separator_line # rows"
  have nl: "\<forall>l \<in> set L. CHR 0x0A \<notin> set l"
    using assms header_line_facts(1) separator_line_facts(1) row_line_no_newline
    by (auto simp: L_def rows_def)
  have ne: "emit_table results \<noteq> []"
    using header_line_facts(3) by (simp add: emit_table_def)
  have "emit_table results = concat (map (\<lambda>l. l @ [CHR 0x0A]) L)"
    by (simp add: emit_table_def L_def rows_def)
  then have sp: "split_on (CHR 0x0A) (emit_table results) = L @ [[]]"
    using split_terminated[OF nl] by simp
  have st: "map strip L = L"
    using assms header_line_facts(2) separator_line_facts(2) row_line_strip(1)
    by (simp add: map_idI L_def rows_def)
  have nn: "filter (\<lambda>l. l \<noteq> []) L = L"
    using assms header_line_facts(3) separator_line_facts(3) row_line_strip(2)
    by (simp add: L_def rows_def)
  have empty: "strip [] = []" by (simp add: strip_def)
  have lines: "filter (\<lambda>l. l \<noteq> []) (map strip (split_on (CHR 0x0A) (emit_table results))) = L"
    unfolding sp by (simp add: st nn empty)
  have len: "\<not> length L < 2" by (simp add: L_def)
  have dl: "filter (\<lambda>l. \<not> is_separator_line l) L = header_line # rows"
    using header_line_facts(4) separator_line_facts(4) row_line_not_separator
    by (simp add: L_def rows_def)
  have ic: "map inner_cells rows = map cells_of results"
    using assms inner_cells_row by (simp add: rows_def)
  have keep: "filter (\<lambda>cells. length cells = 6) (map cells_of results) = map cells_of results"
    by (simp add: length_cells_of)
  have "parse_markdown_table (emit_table results) =
          (map fix_header (inner_cells header_line),
           map (map fix_cell)
             (filter (\<lambda>cells. length cells = length (map fix_header (inner_cells header_line)))
                (map inner_cells rows)))"
    using ne len by (simp add: parse_markdown_table_def lines dl Let_def)
  also have "\<dots> = (table_headers, map (map fix_cell) (map cells_of results))"
    unfolding header_line_facts(5) length_table_headers ic keep ..
  finally show ?thesis by (simp add: comp_def)
qed

theorem table_round_trip_witness:
  "clean_row \<lparr>row_reference = ''Smith (2019) - Ann'' @ [CHR 0xC3, CHR 0xA9] @ ''e'',
               row_theme = ''T'', row_usage = ''u, v'', row_importance = 65,
               row_year = ''2019'', row_link = ''https://doi.org/10.1/x''\<rparr> \<and>
   parse_markdown_table (emit_table
     [\<lparr>row_reference = ''Smith (2019) - Ann'' @ [CHR 0xC3, CHR 0xA9] @ ''e'',
       row_theme = ''T'', row_usage = ''u, v'', row_importance = 65,
       row_year = ''2019'', row_link = ''https://doi.org/10.1/x''\<rparr>]) =
   (table_headers,
    [[''Smith (2019) - '' @ h_year, ''T'', ''u, v'', ''65'', ''2019'', ''https://doi.org/10.1/x'']])"
proof -
  let ?r = "\<lparr>row_reference = ''Smith (2019) - Ann'' @ [CHR 0xC3, CHR 0xA9] @ ''e'',
               row_theme = ''T'', row_usage = ''u, v'', row_importance = 65,
               row_year = ''2019'', row_link = ''https://doi.org/10.1/x''\<rparr>"
  have c: "clean_row ?r" by code_simp
  then have h: "\<forall>r \<in> set [?r]. clean_row r" by simp
  have "map fix_cell (cells_of ?r) =
          [''Smith (2019) - '' @ h_year, ''T'', ''u, v'', ''65'', ''2019'', ''https://doi.org/10.1/x'']"
    by code_simp
  with table_round_trip[OF h] c show ?thesis by simp
qed

text \<open>
  Claim C2 as the specification words it fails. A reference with an embedded pipe is emitted with the pipe
  escaped, the parser splits at the escaped pipe all the same, counts seven cells against
  six headers and drops the row. A cell with whitespace at an end comes back stripped.
\<close>

theorem table_round_trip_counterexample:
  "parse_markdown_table (emit_table
     [\<lparr>row_reference = ''A|B (2019)'', row_theme = ''T'', row_usage = ''u'',
       row_importance = 65, row_year = ''2019'', row_link = []\<rparr>]) = (table_headers, []) \<and>
   parse_markdown_table (emit_table
     [\<lparr>row_reference = '' A (2019)'', row_theme = ''T'', row_usage = ''u'',
       row_importance = 65, row_year = ''2019'', row_link = []\<rparr>]) =
     (table_headers, [[''A (2019)'', ''T'', ''u'', ''65'', ''2019'', []]])"
  by code_simp

text \<open>
  Claim C1. The docstring of \<open>consolidate_themes\<close> promises no more than \<open>max_themes\<close>
  themes, and the claim exactly six distinct values for nine themes and a maximum of six.
  The function keeps the six most frequent themes and adds the catch-all label to them:
  on a table with the themes T1 to T9, T9 twice and the others once, it keeps T9 and T1
  to T5, maps T6, T7 and T8 to "Autre", and leaves seven distinct theme values.
\<close>

theorem consolidate_nine_themes_leaves_seven:
  "theme_values table_headers
     [[''r1'', ''T1'', ''u'', ''50'', ''2001'', []], [''r2'', ''T2'', ''u'', ''50'', ''2002'', []],
      [''r3'', ''T3'', ''u'', ''50'', ''2003'', []], [''r4'', ''T4'', ''u'', ''50'', ''2004'', []],
      [''r5'', ''T5'', ''u'', ''50'', ''2005'', []], [''r6'', ''T6'', ''u'', ''50'', ''2006'', []],
      [''r7'', ''T7'', ''u'', ''50'', ''2007'', []], [''r8'', ''T8'', ''u'', ''50'', ''2008'', []],
      [''r9'', ''T9'', ''u'', ''50'', ''2009'', []], [''r10'', ''T9'', ''u'', ''50'', ''2010'', []]]
     = [''T1'', ''T2'', ''T3'', ''T4'', ''T5'', ''T6'', ''T7'', ''T8'', ''T9''] \<and>
   theme_values table_headers (snd (consolidate_themes table_headers
     [[''r1'', ''T1'', ''u'', ''50'', ''2001'', []], [''r2'', ''T2'', ''u'', ''50'', ''2002'', []],
      [''r3'', ''T3'', ''u'', ''50'', ''2003'', []], [''r4'', ''T4'', ''u'', ''50'', ''2004'', []],
      [''r5'', ''T5'', ''u'', ''50'', ''2005'', []], [''r6'', ''T6'', ''u'', ''50'', ''2006'', []],
      [''r7'', ''T7'', ''u'', ''50'', ''2007'', []], [''r8'', ''T8'', ''u'', ''50'', ''2008'', []],
      [''r9'', ''T9'', ''u'', ''50'', ''2009'', []], [''r10'', ''T9'', ''u'', ''50'', ''2010'', []]]
     6))
     = [''T1'', ''T2'', ''T3'', ''T4'', ''T5'', ''Autre'', ''T9''] \<and>
   length [''T1'', ''T2'', ''T3'', ''T4'', ''T5'', ''Autre'', ''T9''] = 7"
  by code_simp

end
